theory Spec2Isabelle
  imports Main "HOL-Library.Word" "HOL-Library.Finite_Map"
begin

section \<open>Digital wallet: domain types\<close>

text \<open>
  Amounts and balances are Go \<open>int64\<close> values: 64-bit words whose \<open>+\<close> and \<open>-\<close> wrap
  around and whose comparisons are the signed ones. Go strings are byte sequences, as
  \<open>string\<close> is here.
\<close>

type_synonym int64 = "64 word"

text \<open>\<open>domain.TransferCommand\<close>.\<close>

record TransferCommand =
  TransactionID :: string
  FromAccount :: string
  ToAccount :: string
  Amount :: int64

text \<open>
  The three event structs of package \<open>domain\<close>, as one tagged union:
  \<open>MoneyDeducted {TransactionID, Account, Amount}\<close>,
  \<open>MoneyCredited {TransactionID, Account, Amount}\<close>,
  \<open>TransactionFailed {TransactionID, FromAccount, Reason}\<close>.
\<close>

datatype Event =
    MoneyDeducted string string int64
  | MoneyCredited string string int64
  | TransactionFailed string string string

text \<open>The event type constants and the two methods of the \<open>Event\<close> interface.\<close>

definition EventTypeMoneyDeducted :: string where
  "EventTypeMoneyDeducted = ''MoneyDeducted''"

definition EventTypeMoneyCredited :: string where
  "EventTypeMoneyCredited = ''MoneyCredited''"

definition EventTypeTransactionFailed :: string where
  "EventTypeTransactionFailed = ''TransactionFailed''"

fun GetType :: "Event \<Rightarrow> string" where
  "GetType (MoneyDeducted t a v) = EventTypeMoneyDeducted"
| "GetType (MoneyCredited t a v) = EventTypeMoneyCredited"
| "GetType (TransactionFailed t f r) = EventTypeTransactionFailed"

fun GetTransactionID :: "Event \<Rightarrow> string" where
  "GetTransactionID (MoneyDeducted t a v) = t"
| "GetTransactionID (MoneyCredited t a v) = t"
| "GetTransactionID (TransactionFailed t f r) = t"

section \<open>The wallet engine\<close>

text \<open>
  The state of \<open>WalletEngine\<close> that the state machine reads and writes: the two Go maps.
  A Go map is finite and tells an absent key from a key bound to the zero value, so it is
  a finite map here. Reading \<open>m[k]\<close> yields the zero value of the value type for an absent
  key and does not insert the key.
\<close>

record WalletEngine =
  balances :: "(string, int64) fmap"
  processedTxns :: "(string, bool) fmap"

definition balanceAt :: "(string, int64) fmap \<Rightarrow> string \<Rightarrow> int64" where
  "balanceAt m k = (case fmlookup m k of None \<Rightarrow> 0 | Some v \<Rightarrow> v)"

definition flagAt :: "(string, bool) fmap \<Rightarrow> string \<Rightarrow> bool" where
  "flagAt m k = (case fmlookup m k of None \<Rightarrow> False | Some b \<Rightarrow> b)"

definition NewWalletEngine :: WalletEngine where
  "NewWalletEngine = \<lparr>balances = fmempty, processedTxns = fmempty\<rparr>"

definition SetBalance :: "string \<Rightarrow> int64 \<Rightarrow> WalletEngine \<Rightarrow> WalletEngine" where
  "SetBalance account balance e = e\<lparr>balances := fmupd account balance (balances e)\<rparr>"

definition GetBalance :: "string \<Rightarrow> WalletEngine \<Rightarrow> int64" where
  "GetBalance account e = balanceAt (balances e) account"

definition GetAllBalances :: "WalletEngine \<Rightarrow> (string, int64) fmap" where
  "GetAllBalances e = balances e"

text \<open>
  \<open>GetTotalBalance\<close> adds up every value of the map in an \<open>int64\<close> accumulator. Go visits
  the keys in an unspecified order; wrapping addition is commutative, so the result is
  the sum over the key set.
\<close>

definition GetTotalBalance :: "WalletEngine \<Rightarrow> int64" where
  "GetTotalBalance e = (\<Sum>k \<in> fset (fmdom (balances e)). balanceAt (balances e) k)"

text \<open>
  Two notions used to state the balance invariants: every stored balance is non-negative
  as a signed 64-bit value, and the sum of the stored balances as unbounded integers
  (\<open>GetTotalBalance\<close> is this sum modulo \<open>2 ^ 64\<close>).
\<close>

definition balancesNonNegative :: "WalletEngine \<Rightarrow> bool" where
  "balancesNonNegative e =
     (\<forall>k \<in> fset (fmdom (balances e)). 0 \<le>s balanceAt (balances e) k)"

definition exactTotal :: "WalletEngine \<Rightarrow> int" where
  "exactTotal e = (\<Sum>k \<in> fset (fmdom (balances e)). sint (balanceAt (balances e) k))"

text \<open>
  \<open>ExecuteWithContext\<close> is a method on the engine pointer, so the model returns the engine
  next to the result \<open>(events, err)\<close>; \<open>None\<close> is Go's \<open>nil\<close> error. The tracing span and
  the telemetry counter touch no engine field and are left out.
\<close>

definition ExecuteWithContext ::
  "TransferCommand \<Rightarrow> WalletEngine \<Rightarrow> (Event list \<times> string option) \<times> WalletEngine" where
  "ExecuteWithContext cmd e =
    (if flagAt (processedTxns e) (TransactionID cmd) then (([], None), e)
     else if Amount cmd \<le>s 0 then
       (([TransactionFailed (TransactionID cmd) (FromAccount cmd) ''amount must be positive''],
         None), e)
     else if FromAccount cmd = ToAccount cmd then
       (([TransactionFailed (TransactionID cmd) (FromAccount cmd)
            ''cannot transfer to same account''], None), e)
     else
       (let fromBalance = balanceAt (balances e) (FromAccount cmd) in
        if fromBalance <s Amount cmd then
          (([TransactionFailed (TransactionID cmd) (FromAccount cmd) ''insufficient funds''],
            None), e)
        else
          (([MoneyDeducted (TransactionID cmd) (FromAccount cmd) (Amount cmd),
             MoneyCredited (TransactionID cmd) (ToAccount cmd) (Amount cmd)], None), e)))"

definition Execute ::
  "TransferCommand \<Rightarrow> WalletEngine \<Rightarrow> (Event list \<times> string option) \<times> WalletEngine" where
  "Execute cmd e = ExecuteWithContext cmd e"

text \<open>\<open>applyEvent\<close>: the only place where the two maps are written.\<close>

fun applyEvent :: "Event \<Rightarrow> WalletEngine \<Rightarrow> WalletEngine" where
  "applyEvent (MoneyDeducted t a v) e =
     e\<lparr>balances := fmupd a (balanceAt (balances e) a - v) (balances e),
       processedTxns := fmupd t True (processedTxns e)\<rparr>"
| "applyEvent (MoneyCredited t a v) e =
     e\<lparr>balances := fmupd a (balanceAt (balances e) a + v) (balances e)\<rparr>"
| "applyEvent (TransactionFailed t f r) e =
     e\<lparr>processedTxns := fmupd t True (processedTxns e)\<rparr>"

definition ApplyEvents :: "Event list \<Rightarrow> WalletEngine \<Rightarrow> WalletEngine" where
  "ApplyEvents events e = fold applyEvent events e"

text \<open>
  One command through the engine, as \<open>handleCommand\<close> does it once the message is decoded
  and when the store accepts the batch: \<open>Execute\<close>, the events appended to the log, then
  each event applied in order. The second component is the log of persisted events. An
  error from \<open>Execute\<close> ends the handling before anything is persisted or applied.
\<close>

definition processCommand ::
  "TransferCommand \<Rightarrow> WalletEngine \<times> Event list \<Rightarrow> WalletEngine \<times> Event list" where
  "processCommand cmd s =
    (case Execute cmd (fst s) of
       ((events, Some err), e1) \<Rightarrow> (e1, snd s)
     | ((events, None), e1) \<Rightarrow> (fold applyEvent events e1, snd s @ events))"

definition processCommands ::
  "TransferCommand list \<Rightarrow> WalletEngine \<times> Event list \<Rightarrow> WalletEngine \<times> Event list" where
  "processCommands cmds s = fold processCommand cmds s"

text \<open>
  The state invariant behind non-negativity: no stored balance is negative and the exact
  sum of the balances fits in an \<open>int64\<close>, so that no credit can wrap around.
\<close>

definition safeState :: "WalletEngine \<Rightarrow> bool" where
  "safeState e = (balancesNonNegative e \<and> exactTotal e < 2 ^ 63)"

text \<open>
  The shape of a log written by the engine: every \<open>MoneyDeducted\<close> is immediately followed
  by a \<open>MoneyCredited\<close> of the same transaction and amount, and \<open>TransactionFailed\<close>
  events stand alone.
\<close>

fun pairedLog :: "Event list \<Rightarrow> bool" where
  "pairedLog [] = True"
| "pairedLog (MoneyDeducted t a v # MoneyCredited t' b v' # rest) =
     (t = t' \<and> v = v' \<and> pairedLog rest)"
| "pairedLog (TransactionFailed t f r # rest) = pairedLog rest"
| "pairedLog _ = False"


section \<open>The event codec\<close>

text \<open>
  \<open>SerializeEvent\<close> and \<open>DeserializeEvent\<close> go through \<open>encoding/json\<close>. The bytes they
  exchange are represented by the JSON document the bytes spell: null, a string, an integer
  or an object with its members in order. These are the documents that marshalling the
  event structs and the envelope produces; arrays, booleans and fractional numbers are left
  out. The text syntax of \<open>encoding/json\<close> (escapes, digits, spacing) loses nothing of such
  a document, so it is not modelled.
\<close>

datatype json = JNull | JString string | JNumber int | JObject "(string \<times> json) list"

text \<open>
  What \<open>encoding/json\<close> does to a Go string: "String values encode as JSON strings coerced
  to valid UTF-8, replacing invalid bytes with the Unicode replacement rune". The encoder
  walks the string with \<open>utf8.DecodeRuneInString\<close>; a well-formed sequence is kept, and a
  byte that starts none is replaced by U+FFFD (the bytes EF BF BD) and skipped alone.
  \<open>runeWidth\<close> is the width of the well-formed sequence at the head of a string, 0 when
  there is none, with the ranges of the \<open>unicode/utf8\<close> tables (no overlong forms, no
  surrogates, nothing above U+10FFFF). The first argument of \<open>coerceFrom\<close> and \<open>validFrom\<close>
  counts the bytes of the current sequence still to be passed over.
\<close>

definition byteIn :: "nat \<Rightarrow> nat \<Rightarrow> char \<Rightarrow> bool" where
  "byteIn lo hi c = (lo \<le> of_char c \<and> of_char c \<le> hi)"

definition secondLo :: "char \<Rightarrow> nat" where
  "secondLo b0 = (if b0 = CHR 0xE0 then 0xA0 else if b0 = CHR 0xF0 then 0x90 else 0x80)"

definition secondHi :: "char \<Rightarrow> nat" where
  "secondHi b0 = (if b0 = CHR 0xED then 0x9F else if b0 = CHR 0xF4 then 0x8F else 0xBF)"

fun runeWidth :: "string \<Rightarrow> nat" where
  "runeWidth [] = 0"
| "runeWidth (b0 # rest) =
    (if byteIn 0x00 0x7F b0 then 1
     else if byteIn 0xC2 0xDF b0 then
       (case rest of
          b1 # _ \<Rightarrow> if byteIn 0x80 0xBF b1 then 2 else 0
        | _ \<Rightarrow> 0)
     else if byteIn 0xE0 0xEF b0 then
       (case rest of
          b1 # b2 # _ \<Rightarrow>
            if byteIn (secondLo b0) (secondHi b0) b1 \<and> byteIn 0x80 0xBF b2 then 3 else 0
        | _ \<Rightarrow> 0)
     else if byteIn 0xF0 0xF4 b0 then
       (case rest of
          b1 # b2 # b3 # _ \<Rightarrow>
            if byteIn (secondLo b0) (secondHi b0) b1 \<and> byteIn 0x80 0xBF b2
               \<and> byteIn 0x80 0xBF b3 then 4 else 0
        | _ \<Rightarrow> 0)
     else 0)"

fun coerceFrom :: "nat \<Rightarrow> string \<Rightarrow> string" where
  "coerceFrom k [] = []"
| "coerceFrom k (c # cs) =
    (if 0 < k then c # coerceFrom (k - 1) cs
     else (let w = runeWidth (c # cs) in
           if w = 0 then [CHR 0xEF, CHR 0xBF, CHR 0xBD] @ coerceFrom 0 cs
           else c # coerceFrom (w - 1) cs))"

definition jsonStringValue :: "string \<Rightarrow> string" where
  "jsonStringValue s = coerceFrom 0 s"

fun validFrom :: "nat \<Rightarrow> string \<Rightarrow> bool" where
  "validFrom k [] = True"
| "validFrom k (c # cs) =
    (if 0 < k then validFrom (k - 1) cs
     else (let w = runeWidth (c # cs) in
           if w = 0 then False else validFrom (w - 1) cs))"

definition validUTF8 :: "string \<Rightarrow> bool" where
  "validUTF8 s = validFrom 0 s"

text \<open>
  \<open>EventEnvelope\<close>. \<open>Timestamp\<close> is a \<open>time.Time\<close>, represented by its RFC 3339 text, which
  is what it marshals to. \<open>Data\<close> is a \<open>json.RawMessage\<close>: a document, or \<open>None\<close> for the nil
  message.
\<close>

record EventEnvelope =
  Type :: string
  Timestamp :: string
  Data :: "json option"

text \<open>
  \<open>json.Marshal\<close> on the three event structs and on the envelope: one member per field, in
  field order, under the name of its \<open>json\<close> tag; a nil raw message is written as null.
\<close>

fun jsonMarshalEvent :: "Event \<Rightarrow> string + json" where
  "jsonMarshalEvent (MoneyDeducted t a v) =
     Inr (JObject [(''transaction_id'', JString (jsonStringValue t)),
                   (''account'', JString (jsonStringValue a)),
                   (''amount'', JNumber (sint v))])"
| "jsonMarshalEvent (MoneyCredited t a v) =
     Inr (JObject [(''transaction_id'', JString (jsonStringValue t)),
                   (''account'', JString (jsonStringValue a)),
                   (''amount'', JNumber (sint v))])"
| "jsonMarshalEvent (TransactionFailed t f r) =
     Inr (JObject [(''transaction_id'', JString (jsonStringValue t)),
                   (''from_account'', JString (jsonStringValue f)),
                   (''reason'', JString (jsonStringValue r))])"

definition jsonMarshalEnvelope :: "EventEnvelope \<Rightarrow> string + json" where
  "jsonMarshalEnvelope envelope =
     Inr (JObject ([(''type'', JString (jsonStringValue (Type envelope))),
                    (''timestamp'', JString (Timestamp envelope))]
                   @ [(''data'', (case Data envelope of None \<Rightarrow> JNull | Some raw \<Rightarrow> raw))]))"

text \<open>
  \<open>json.Unmarshal\<close> into a struct: a member is looked up by the tag of the field, the last
  one winning among duplicates; a missing member or a null leaves the field at its zero
  value; a member of the wrong kind, or a number outside \<open>int64\<close>, is an error. A null
  document leaves the whole struct at its zero value. Member names are matched as the
  encoder writes them and a timestamp is taken as the text it is, which covers every
  document that \<open>SerializeEvent\<close> writes; on other documents (names in another case, a
  null after a member of the same name, a timestamp that is not RFC 3339) \<open>encoding/json\<close>
  may decide otherwise.
\<close>

definition jsonField :: "(string \<times> json) list \<Rightarrow> string \<Rightarrow> json option" where
  "jsonField members name = map_of (rev members) name"

definition jsonToString :: "json option \<Rightarrow> string + string" where
  "jsonToString v =
    (case v of
       None \<Rightarrow> Inr []
     | Some JNull \<Rightarrow> Inr []
     | Some (JString s) \<Rightarrow> Inr s
     | Some _ \<Rightarrow> Inl ''json: cannot unmarshal into Go struct field of type string'')"

definition jsonToInt64 :: "json option \<Rightarrow> string + int64" where
  "jsonToInt64 v =
    (case v of
       None \<Rightarrow> Inr 0
     | Some JNull \<Rightarrow> Inr 0
     | Some (JNumber n) \<Rightarrow>
         if - (2 ^ 63) \<le> n \<and> n < 2 ^ 63 then Inr (word_of_int n)
         else Inl ''json: cannot unmarshal number into Go struct field of type int64''
     | Some _ \<Rightarrow> Inl ''json: cannot unmarshal into Go struct field of type int64'')"

definition zeroTime :: string where
  "zeroTime = ''0001-01-01T00:00:00Z''"

definition jsonToTime :: "json option \<Rightarrow> string + string" where
  "jsonToTime v =
    (case v of
       None \<Rightarrow> Inr zeroTime
     | Some JNull \<Rightarrow> Inr zeroTime
     | Some (JString s) \<Rightarrow> Inr s
     | Some _ \<Rightarrow> Inl ''Time.UnmarshalJSON: input is not a JSON string'')"

definition jsonUnmarshalEnvelope :: "json \<Rightarrow> string + EventEnvelope" where
  "jsonUnmarshalEnvelope doc =
    (case doc of
       JNull \<Rightarrow> Inr \<lparr>Type = [], Timestamp = zeroTime, Data = None\<rparr>
     | JObject members \<Rightarrow>
         (case jsonToString (jsonField members ''type'') of
            Inl err \<Rightarrow> Inl err
          | Inr ty \<Rightarrow>
             (case jsonToTime (jsonField members ''timestamp'') of
                Inl err \<Rightarrow> Inl err
              | Inr ts \<Rightarrow>
                  Inr \<lparr>Type = ty, Timestamp = ts, Data = jsonField members ''data''\<rparr>))
     | _ \<Rightarrow> Inl ''json: cannot unmarshal into Go value of type domain.EventEnvelope'')"

definition jsonUnmarshalAccountEvent ::
  "(string \<Rightarrow> string \<Rightarrow> int64 \<Rightarrow> Event) \<Rightarrow> json option \<Rightarrow> string + Event" where
  "jsonUnmarshalAccountEvent mk raw =
    (case raw of
       None \<Rightarrow> Inl ''unexpected end of JSON input''
     | Some JNull \<Rightarrow> Inr (mk [] [] 0)
     | Some (JObject members) \<Rightarrow>
         (case jsonToString (jsonField members ''transaction_id'') of
            Inl err \<Rightarrow> Inl err
          | Inr t \<Rightarrow>
             (case jsonToString (jsonField members ''account'') of
                Inl err \<Rightarrow> Inl err
              | Inr a \<Rightarrow>
                 (case jsonToInt64 (jsonField members ''amount'') of
                    Inl err \<Rightarrow> Inl err
                  | Inr v \<Rightarrow> Inr (mk t a v))))
     | Some _ \<Rightarrow> Inl ''json: cannot unmarshal into Go value of struct type'')"

definition jsonUnmarshalTransactionFailed :: "json option \<Rightarrow> string + Event" where
  "jsonUnmarshalTransactionFailed raw =
    (case raw of
       None \<Rightarrow> Inl ''unexpected end of JSON input''
     | Some JNull \<Rightarrow> Inr (TransactionFailed [] [] [])
     | Some (JObject members) \<Rightarrow>
         (case jsonToString (jsonField members ''transaction_id'') of
            Inl err \<Rightarrow> Inl err
          | Inr t \<Rightarrow>
             (case jsonToString (jsonField members ''from_account'') of
                Inl err \<Rightarrow> Inl err
              | Inr f \<Rightarrow>
                 (case jsonToString (jsonField members ''reason'') of
                    Inl err \<Rightarrow> Inl err
                  | Inr r \<Rightarrow> Inr (TransactionFailed t f r))))
     | Some _ \<Rightarrow> Inl ''json: cannot unmarshal into Go value of struct type'')"

text \<open>
  \<open>SerializeEvent\<close> with the reading of the clock, \<open>time.Now().UTC()\<close>, as its first
  argument, and \<open>DeserializeEvent\<close>.
\<close>

definition SerializeEvent :: "string \<Rightarrow> Event \<Rightarrow> string + json" where
  "SerializeEvent now event =
    (case jsonMarshalEvent event of
       Inl err \<Rightarrow> Inl err
     | Inr data \<Rightarrow>
         jsonMarshalEnvelope \<lparr>Type = GetType event, Timestamp = now, Data = Some data\<rparr>)"

definition DeserializeEvent :: "json \<Rightarrow> string + Event" where
  "DeserializeEvent data =
    (case jsonUnmarshalEnvelope data of
       Inl err \<Rightarrow> Inl err
     | Inr envelope \<Rightarrow>
         if Type envelope = EventTypeMoneyDeducted then
           jsonUnmarshalAccountEvent MoneyDeducted (Data envelope)
         else if Type envelope = EventTypeMoneyCredited then
           jsonUnmarshalAccountEvent MoneyCredited (Data envelope)
         else if Type envelope = EventTypeTransactionFailed then
           jsonUnmarshalTransactionFailed (Data envelope)
         else Inl (''unknown event type: '' @ Type envelope))"

text \<open>
  Decoding what encoding gives, and the events all of whose string fields are valid UTF-8.
\<close>

definition decodeEncoded :: "string \<Rightarrow> Event \<Rightarrow> string + Event" where
  "decodeEncoded now event =
    (case SerializeEvent now event of Inl err \<Rightarrow> Inl err | Inr data \<Rightarrow> DeserializeEvent data)"

fun stringsValidUTF8 :: "Event \<Rightarrow> bool" where
  "stringsValidUTF8 (MoneyDeducted t a v) = (validUTF8 t \<and> validUTF8 a)"
| "stringsValidUTF8 (MoneyCredited t a v) = (validUTF8 t \<and> validUTF8 a)"
| "stringsValidUTF8 (TransactionFailed t f r) = (validUTF8 t \<and> validUTF8 f \<and> validUTF8 r)"

section \<open>The event store\<close>

text \<open>
  The errors of the store, one constructor for each message it wraps an error in: "failed
  to serialize event", "failed to write event", "failed to sync event store", "failed to
  open event store for reading", "failed to deserialize event at line n" and "error reading
  event store".
\<close>

datatype StoreError =
    SerializeFailed string
  | WriteFailed string
  | SyncFailed string
  | OpenFailed string
  | DeserializeFailed nat string
  | ReadFailed string

text \<open>
  The store file. It is a state \<open>'f\<close> with the calls the store makes on it: \<open>Write\<close>, which
  returns the file after the call and an error or none, \<open>Sync\<close>, and opening the file for
  reading, which fails because the file does not exist, fails otherwise, or gives the lines
  of the file. What is written is one line: the serialized data followed by the newline
  byte that the store appends. A line of the file is represented like the data, type \<open>'d\<close>.
\<close>

datatype 'd opened = NotExist | OpenError string | Opened "'d list"

record ('f, 'd) osFile =
  fileWrite :: "'f \<Rightarrow> 'd \<Rightarrow> 'f \<times> string option"
  fileSync :: "'f \<Rightarrow> string option"
  fileOpen :: "'f \<Rightarrow> 'd opened"

text \<open>
  \<open>AppendBatch\<close>. \<open>domain.Event\<close> is an interface, so the batch elements have any type
  \<open>'ev\<close> and \<open>domain.SerializeEvent\<close> on them is the first argument. The loop serializes
  one event and writes its line before it turns to the next event; the sync follows the
  loop.
\<close>

fun appendEach ::
  "('ev \<Rightarrow> string + 'd) \<Rightarrow> ('f, 'd) osFile \<Rightarrow> 'ev list \<Rightarrow> 'f \<Rightarrow> StoreError option \<times> 'f" where
  "appendEach serialize os [] f = (None, f)"
| "appendEach serialize os (event # events) f =
    (case serialize event of
       Inl err \<Rightarrow> (Some (SerializeFailed err), f)
     | Inr data \<Rightarrow>
        (case fileWrite os f data of
           (f', Some err) \<Rightarrow> (Some (WriteFailed err), f')
         | (f', None) \<Rightarrow> appendEach serialize os events f'))"

definition AppendBatch ::
  "('ev \<Rightarrow> string + 'd) \<Rightarrow> ('f, 'd) osFile \<Rightarrow> 'ev list \<Rightarrow> 'f \<Rightarrow> StoreError option \<times> 'f" where
  "AppendBatch serialize os events f =
    (case appendEach serialize os events f of
       (Some err, f') \<Rightarrow> (Some err, f')
     | (None, f') \<Rightarrow>
        (case fileSync os f' of
           Some err \<Rightarrow> (Some (SyncFailed err), f')
         | None \<Rightarrow> (None, f')))"

text \<open>
  \<open>LoadAll\<close> reads the file line by line through a \<open>bufio.Scanner\<close> whose buffer may grow
  to \<open>1024 * 1024\<close> bytes. A line that does not fit the buffer together with its newline
  ends the scan with an error; an empty line is skipped; any other line is decoded and a
  decoding error is returned with the number of the line. The number of bytes of a line
  depends on the text syntax of \<open>encoding/json\<close> and is the first argument.
\<close>

definition maxTokenSize :: nat where
  "maxTokenSize = 1024 * 1024"

fun scanEvents :: "(json \<Rightarrow> nat) \<Rightarrow> nat \<Rightarrow> json list \<Rightarrow> StoreError + Event list" where
  "scanEvents lineLength lineNum [] = Inr []"
| "scanEvents lineLength lineNum (line # rest) =
    (if maxTokenSize < lineLength line + 1 then Inl (ReadFailed ''bufio.Scanner: token too long'')
     else if lineLength line = 0 then scanEvents lineLength (lineNum + 1) rest
     else
       (case DeserializeEvent line of
          Inl err \<Rightarrow> Inl (DeserializeFailed (lineNum + 1) err)
        | Inr event \<Rightarrow>
           (case scanEvents lineLength (lineNum + 1) rest of
              Inl err \<Rightarrow> Inl err
            | Inr events \<Rightarrow> Inr (event # events))))"

definition LoadAll :: "(json \<Rightarrow> nat) \<Rightarrow> ('f, json) osFile \<Rightarrow> 'f \<Rightarrow> StoreError + Event list" where
  "LoadAll lineLength os f =
    (case fileOpen os f of
       NotExist \<Rightarrow> Inr []
     | OpenError err \<Rightarrow> Inl (OpenFailed err)
     | Opened ls \<Rightarrow> scanEvents lineLength 0 ls)"

text \<open>A file held in memory: writes append a line, and neither they nor the sync fail.\<close>

definition memoryFile :: "('d list, 'd) osFile" where
  "memoryFile =
     \<lparr>fileWrite = (\<lambda>f line. (f @ [line], None)), fileSync = (\<lambda>f. None),
      fileOpen = (\<lambda>f. Opened f)\<rparr>"

text \<open>
  \<open>InitializeFromEventStore\<close>: the result of \<open>eventStore.LoadAll()\<close> is the first argument;
  a load error is returned with the engine untouched, otherwise every event is applied in
  order.
\<close>

definition InitializeFromEventStore ::
  "StoreError + Event list \<Rightarrow> WalletEngine \<Rightarrow> StoreError option \<times> WalletEngine" where
  "InitializeFromEventStore loaded e =
    (case loaded of
       Inl err \<Rightarrow> (Some err, e)
     | Inr events \<Rightarrow> (None, fold applyEvent events e))"

text \<open>
  \<open>handleCommand\<close> from the decoded command to the application of the events:
  \<open>ExecuteWithContext\<close>, then \<open>AppendBatch\<close> on the store file, then \<open>applyEvent\<close> on each
  event in order. An error of either call ends the handling with the engine as it was; the
  file is then as the failed append left it. The repository's tests run the same three
  steps by hand with \<open>Execute\<close>, \<open>AppendBatch\<close> and \<open>ApplyEvents\<close>. The command is an
  argument, so its strings are any Go strings.
\<close>

definition handleCommand ::
  "(Event \<Rightarrow> string + 'd) \<Rightarrow> ('f, 'd) osFile \<Rightarrow> TransferCommand \<Rightarrow> WalletEngine \<times> 'f
     \<Rightarrow> WalletEngine \<times> 'f" where
  "handleCommand serialize os cmd s =
    (case ExecuteWithContext cmd (fst s) of
       ((events, Some err), e1) \<Rightarrow> (e1, snd s)
     | ((events, None), e1) \<Rightarrow>
        (case AppendBatch serialize os events (snd s) of
           (Some err, f') \<Rightarrow> (e1, f')
         | (None, f') \<Rightarrow> (fold applyEvent events e1, f')))"

definition handleCommands ::
  "(Event \<Rightarrow> string + 'd) \<Rightarrow> ('f, 'd) osFile \<Rightarrow> TransferCommand list \<Rightarrow> WalletEngine \<times> 'f
     \<Rightarrow> WalletEngine \<times> 'f" where
  "handleCommands serialize os cmds s = fold (handleCommand serialize os) cmds s"

text \<open>
  The commands all of whose strings are valid UTF-8, and the lines that \<open>LoadAll\<close> reads
  back: not empty and, with the newline, within the buffer of the scanner.
\<close>

definition commandStringsValid :: "TransferCommand \<Rightarrow> bool" where
  "commandStringsValid cmd =
     (validUTF8 (TransactionID cmd) \<and> validUTF8 (FromAccount cmd) \<and> validUTF8 (ToAccount cmd))"

definition lineFits :: "(json \<Rightarrow> nat) \<Rightarrow> json \<Rightarrow> bool" where
  "lineFits lineLength line = (0 < lineLength line \<and> lineLength line + 1 \<le> maxTokenSize)"

section \<open>Signed 64-bit arithmetic without wrap-around\<close>

lemma sint_minus_exact:
  fixes x v :: int64
  assumes "\<not> v \<le>s 0" "\<not> x <s v"
  shows "sint (x - v) = sint x - sint v"
proof -
  have a: "0 < sint v" "sint v \<le> sint x"
    using assms by (simp_all add: word_sle_eq word_sless_alt)
  have b: "sint x < 2 ^ 63" using sint_lt [of x] by simp
  have "sint (x - v) = signed_take_bit 63 (sint x - sint v)"
    by (simp add: sint_word_ariths)
  also have "\<dots> = sint x - sint v"
    using a b by (intro signed_take_bit_int_eq_self) auto
  finally show ?thesis .
qed

lemma sint_plus_exact:
  fixes x v :: int64
  assumes "0 \<le> sint x" "0 \<le> sint v" "sint x + sint v < 2 ^ 63"
  shows "sint (x + v) = sint x + sint v"
proof -
  have "sint (x + v) = signed_take_bit 63 (sint x + sint v)"
    by (simp add: sint_word_ariths)
  also have "\<dots> = sint x + sint v"
    using assms by (intro signed_take_bit_int_eq_self) auto
  finally show ?thesis .
qed

section \<open>Sums over a balance map\<close>

lemma balanceAt_fmupd: "balanceAt (fmupd a v m) k = (if a = k then v else balanceAt m k)"
  by (simp add: balanceAt_def)

lemma balanceAt_absent: "a |\<notin>| fmdom m \<Longrightarrow> balanceAt m a = 0"
  by (auto simp: balanceAt_def split: option.splits)

lemma sum_over_fmupd:
  fixes h :: "int64 \<Rightarrow> 'a::ab_group_add"
  assumes h0: "h 0 = 0"
  shows "(\<Sum>k \<in> fset (fmdom (fmupd a v m)). h (balanceAt (fmupd a v m) k))
       = (\<Sum>k \<in> fset (fmdom m). h (balanceAt m k)) - h (balanceAt m a) + h v"
proof -
  let ?D = "fset (fmdom m) - {a}"
  let ?g = "\<lambda>k. h (balanceAt m k)"
  let ?g' = "\<lambda>k. h (balanceAt (fmupd a v m) k)"
  have fin: "finite ?D" by simp
  have rest: "sum ?g' ?D = sum ?g ?D"
    by (rule sum.cong) (auto simp: balanceAt_fmupd)
  have new: "sum ?g' (fset (fmdom (fmupd a v m))) = h v + sum ?g ?D"
  proof -
    have "fset (fmdom (fmupd a v m)) = insert a ?D" by auto
    then have "sum ?g' (fset (fmdom (fmupd a v m))) = sum ?g' (insert a ?D)"
      by (simp only:)
    also have "\<dots> = ?g' a + sum ?g' ?D"
      using fin by (subst sum.insert) auto
    also have "?g' a = h v" by (simp add: balanceAt_fmupd)
    finally show ?thesis by (simp only: rest)
  qed
  have old: "sum ?g (fset (fmdom m)) = ?g a + sum ?g ?D"
  proof (cases "a |\<in>| fmdom m")
    case True
    then have "fset (fmdom m) = insert a ?D" by auto
    then have "sum ?g (fset (fmdom m)) = sum ?g (insert a ?D)"
      by (simp only:)
    also have "\<dots> = ?g a + sum ?g ?D"
      using fin by (subst sum.insert) auto
    finally show ?thesis .
  next
    case False
    then have "?D = fset (fmdom m)" by auto
    then show ?thesis using False by (simp add: balanceAt_absent h0)
  qed
  show ?thesis unfolding new old by simp
qed

lemma GetTotalBalance_fmupd:
  "GetTotalBalance (e\<lparr>balances := fmupd a v (balances e)\<rparr>)
     = GetTotalBalance e - balanceAt (balances e) a + v"
  using sum_over_fmupd [where h = "\<lambda>x. x" and a = a and v = v and m = "balances e"] by (simp add: GetTotalBalance_def)

lemma exactTotal_fmupd:
  "exactTotal (e\<lparr>balances := fmupd a v (balances e)\<rparr>)
     = exactTotal e - sint (balanceAt (balances e) a) + sint v"
  using sum_over_fmupd [where h = sint and a = a and v = v and m = "balances e"] by (simp add: exactTotal_def)

lemma nonNegative_fmupd:
  "balancesNonNegative e \<Longrightarrow> 0 \<le>s v \<Longrightarrow>
   balancesNonNegative (e\<lparr>balances := fmupd a v (balances e)\<rparr>)"
  by (auto simp: balancesNonNegative_def balanceAt_fmupd)

lemma nonNegative_balanceAt: "balancesNonNegative e \<Longrightarrow> 0 \<le> sint (balanceAt (balances e) k)"
proof (cases "k |\<in>| fmdom (balances e)")
  case True
  assume "balancesNonNegative e"
  with True show ?thesis by (auto simp: balancesNonNegative_def word_sle_eq)
next
  case False
  then show ?thesis by (simp add: balanceAt_absent)
qed

lemma nonNegative_exactTotal: "balancesNonNegative e \<Longrightarrow> 0 \<le> exactTotal e"
  unfolding exactTotal_def by (rule sum_nonneg) (simp add: nonNegative_balanceAt)

lemma two_balances_le_total:
  assumes nn: "balancesNonNegative e" and ne: "f \<noteq> t"
  shows "sint (balanceAt (balances e) f) + sint (balanceAt (balances e) t) \<le> exactTotal e"
proof -
  let ?e1 = "e\<lparr>balances := fmupd t 0 (balances e)\<rparr>"
  let ?e2 = "?e1\<lparr>balances := fmupd f 0 (balances ?e1)\<rparr>"
  have n1: "balancesNonNegative ?e1" using nn by (rule nonNegative_fmupd) simp
  have n2: "balancesNonNegative ?e2" using n1 by (rule nonNegative_fmupd) simp
  have "exactTotal ?e2 = exactTotal ?e1 - sint (balanceAt (balances ?e1) f)"
    using exactTotal_fmupd [where e = ?e1 and a = f and v = 0] by simp
  also have "balanceAt (balances ?e1) f = balanceAt (balances e) f"
    using ne by (simp add: balanceAt_fmupd)
  also have "exactTotal ?e1 = exactTotal e - sint (balanceAt (balances e) t)"
    using exactTotal_fmupd [where e = e and a = t and v = 0] by simp
  finally show ?thesis using nonNegative_exactTotal [OF n2] by simp
qed

section \<open>The outcomes of Execute\<close>


lemma balances_applyFailed [simp]: "balances (applyEvent (TransactionFailed t f r) e) = balances e"
  by simp

lemma nonNegative_cong: "balances e' = balances e \<Longrightarrow> balancesNonNegative e' = balancesNonNegative e"
  by (simp add: balancesNonNegative_def)

lemma exactTotal_cong: "balances e' = balances e \<Longrightarrow> exactTotal e' = exactTotal e"
  by (simp add: exactTotal_def)

lemma safeState_cong: "balances e' = balances e \<Longrightarrow> safeState e' = safeState e"
  by (simp add: safeState_def balancesNonNegative_def exactTotal_def)

lemma deduct_nonNegative:
  assumes nn: "balancesNonNegative e" and pos: "\<not> v \<le>s 0"
    and enough: "\<not> balanceAt (balances e) a <s v"
  shows "balancesNonNegative (applyEvent (MoneyDeducted t a v) e)"
    and "exactTotal (applyEvent (MoneyDeducted t a v) e) = exactTotal e - sint v"
proof -
  let ?x = "balanceAt (balances e) a"
  have ex: "sint (?x - v) = sint ?x - sint v"
    using pos enough by (rule sint_minus_exact)
  have "sint v \<le> sint ?x" using enough by (simp add: word_sless_alt)
  then have ge: "0 \<le>s ?x - v" using ex by (simp add: word_sle_eq)
  let ?e1 = "e\<lparr>balances := fmupd a (?x - v) (balances e)\<rparr>"
  have b: "balances (applyEvent (MoneyDeducted t a v) e) = balances ?e1" by simp
  have "balancesNonNegative ?e1" using nn ge by (rule nonNegative_fmupd)
  then show "balancesNonNegative (applyEvent (MoneyDeducted t a v) e)"
    using nonNegative_cong [OF b] by simp
  have "exactTotal ?e1 = exactTotal e - sint v"
    using exactTotal_fmupd [where e = e and a = a and v = "?x - v"] ex by simp
  then show "exactTotal (applyEvent (MoneyDeducted t a v) e) = exactTotal e - sint v"
    using exactTotal_cong [OF b] by simp
qed

lemma credit_nonNegative:
  assumes nn: "balancesNonNegative e" and pos: "0 \<le> sint v"
    and room: "exactTotal e + sint v < 2 ^ 63"
  shows "balancesNonNegative (applyEvent (MoneyCredited t a v) e)"
    and "exactTotal (applyEvent (MoneyCredited t a v) e) = exactTotal e + sint v"
proof -
  let ?x = "balanceAt (balances e) a"
  have x0: "0 \<le> sint ?x" using nn by (rule nonNegative_balanceAt)
  have "sint ?x \<le> exactTotal e"
  proof -
    let ?e0 = "e\<lparr>balances := fmupd a 0 (balances e)\<rparr>"
    have "balancesNonNegative ?e0" using nn by (rule nonNegative_fmupd) simp
    then have "0 \<le> exactTotal ?e0" by (rule nonNegative_exactTotal)
    then show ?thesis using exactTotal_fmupd [where e = e and a = a and v = 0] by simp
  qed
  then have "sint ?x + sint v < 2 ^ 63" using room by simp
  with x0 pos have ex: "sint (?x + v) = sint ?x + sint v" by (rule sint_plus_exact)
  then have ge: "0 \<le>s ?x + v" using x0 pos by (simp add: word_sle_eq)
  let ?e1 = "e\<lparr>balances := fmupd a (?x + v) (balances e)\<rparr>"
  have b: "applyEvent (MoneyCredited t a v) e = ?e1" by simp
  show "balancesNonNegative (applyEvent (MoneyCredited t a v) e)"
    unfolding b using nn ge by (rule nonNegative_fmupd)
  show "exactTotal (applyEvent (MoneyCredited t a v) e) = exactTotal e + sint v"
    unfolding b using exactTotal_fmupd [where e = e and a = a and v = "?x + v"] ex by simp
qed

lemma Execute_shape: "Execute cmd e = ((fst (fst (Execute cmd e)), None), e)"
  by (simp add: Execute_def ExecuteWithContext_def Let_def)

lemma processCommand_eq:
  "processCommand cmd s =
     (fold applyEvent (fst (fst (Execute cmd (fst s)))) (fst s),
      snd s @ fst (fst (Execute cmd (fst s))))"
  unfolding processCommand_def by (subst Execute_shape) simp

lemma Execute_duplicate:
  "flagAt (processedTxns e) (TransactionID cmd) \<Longrightarrow> Execute cmd e = (([], None), e)"
  by (simp add: Execute_def ExecuteWithContext_def)

lemma Execute_not_positive:
  "\<not> flagAt (processedTxns e) (TransactionID cmd) \<Longrightarrow> Amount cmd \<le>s 0 \<Longrightarrow>
   Execute cmd e =
     (([TransactionFailed (TransactionID cmd) (FromAccount cmd) ''amount must be positive''],
       None), e)"
  by (simp add: Execute_def ExecuteWithContext_def)

lemma Execute_same_account:
  "\<not> flagAt (processedTxns e) (TransactionID cmd) \<Longrightarrow> \<not> Amount cmd \<le>s 0 \<Longrightarrow>
   FromAccount cmd = ToAccount cmd \<Longrightarrow>
   Execute cmd e =
     (([TransactionFailed (TransactionID cmd) (FromAccount cmd)
          ''cannot transfer to same account''], None), e)"
  by (simp add: Execute_def ExecuteWithContext_def)

lemma Execute_insufficient:
  "\<not> flagAt (processedTxns e) (TransactionID cmd) \<Longrightarrow> \<not> Amount cmd \<le>s 0 \<Longrightarrow>
   FromAccount cmd \<noteq> ToAccount cmd \<Longrightarrow>
   balanceAt (balances e) (FromAccount cmd) <s Amount cmd \<Longrightarrow>
   Execute cmd e =
     (([TransactionFailed (TransactionID cmd) (FromAccount cmd) ''insufficient funds''],
       None), e)"
  by (simp add: Execute_def ExecuteWithContext_def)

lemma Execute_success:
  "\<not> flagAt (processedTxns e) (TransactionID cmd) \<Longrightarrow> \<not> Amount cmd \<le>s 0 \<Longrightarrow>
   FromAccount cmd \<noteq> ToAccount cmd \<Longrightarrow>
   \<not> balanceAt (balances e) (FromAccount cmd) <s Amount cmd \<Longrightarrow>
   Execute cmd e =
     (([MoneyDeducted (TransactionID cmd) (FromAccount cmd) (Amount cmd),
        MoneyCredited (TransactionID cmd) (ToAccount cmd) (Amount cmd)], None), e)"
  by (simp add: Execute_def ExecuteWithContext_def)

lemma Execute_events_cases:
  obtains (duplicate) "flagAt (processedTxns e) (TransactionID cmd)"
      "fst (fst (Execute cmd e)) = []"
  | (failed) r where "\<not> flagAt (processedTxns e) (TransactionID cmd)"
      "fst (fst (Execute cmd e)) = [TransactionFailed (TransactionID cmd) (FromAccount cmd) r]"
  | (success) "\<not> flagAt (processedTxns e) (TransactionID cmd)"
      "\<not> Amount cmd \<le>s 0" "FromAccount cmd \<noteq> ToAccount cmd"
      "\<not> balanceAt (balances e) (FromAccount cmd) <s Amount cmd"
      "fst (fst (Execute cmd e)) =
         [MoneyDeducted (TransactionID cmd) (FromAccount cmd) (Amount cmd),
          MoneyCredited (TransactionID cmd) (ToAccount cmd) (Amount cmd)]"
proof (cases "flagAt (processedTxns e) (TransactionID cmd)")
  case True
  then show ?thesis using duplicate by (simp add: Execute_duplicate)
next
  case nd: False
  show ?thesis
  proof (cases "Amount cmd \<le>s 0")
    case True
    then show ?thesis using nd failed by (simp add: Execute_not_positive)
  next
    case pos: False
    show ?thesis
    proof (cases "FromAccount cmd = ToAccount cmd")
      case True
      then show ?thesis using nd pos failed by (simp add: Execute_same_account)
    next
      case ne: False
      show ?thesis
      proof (cases "balanceAt (balances e) (FromAccount cmd) <s Amount cmd")
        case True
        then show ?thesis using nd pos ne failed by (simp add: Execute_insufficient)
      next
        case False
        then show ?thesis using nd pos ne success by (simp add: Execute_success)
      qed
    qed
  qed
qed

lemma safeState_processCommand:
  assumes "safeState (fst s)"
  shows "safeState (fst (processCommand cmd s))"
proof -
  let ?e = "fst s"
  have nn: "balancesNonNegative ?e" and tot: "exactTotal ?e < 2 ^ 63"
    using assms by (simp_all add: safeState_def)
  show ?thesis
  proof (cases rule: Execute_events_cases [where e = ?e and cmd = cmd])
    case duplicate
    then show ?thesis using assms by (simp add: processCommand_eq)
  next
    case (failed r)
    then have "balances (fst (processCommand cmd s)) = balances ?e"
      by (simp add: processCommand_eq)
    from safeState_cong [OF this] show ?thesis using assms by simp
  next
    case success
    let ?d = "applyEvent (MoneyDeducted (TransactionID cmd) (FromAccount cmd) (Amount cmd)) ?e"
    have st: "fst (processCommand cmd s) =
       applyEvent (MoneyCredited (TransactionID cmd) (ToAccount cmd) (Amount cmd)) ?d"
      by (simp only: processCommand_eq success(5) fold_simps fst_conv id_apply comp_apply)
    have d1: "balancesNonNegative ?d"
      using nn success(2) success(4) by (rule deduct_nonNegative(1))
    have d2: "exactTotal ?d = exactTotal ?e - sint (Amount cmd)"
      using nn success(2) success(4) by (rule deduct_nonNegative(2))
    have pos: "0 \<le> sint (Amount cmd)" using success(2) by (simp add: word_sle_eq)
    have room: "exactTotal ?d + sint (Amount cmd) < 2 ^ 63" using d2 tot by simp
    have c1: "balancesNonNegative (fst (processCommand cmd s))"
      unfolding st using d1 pos room by (rule credit_nonNegative(1))
    have c2: "exactTotal (fst (processCommand cmd s)) = exactTotal ?d + sint (Amount cmd)"
      unfolding st using d1 pos room by (rule credit_nonNegative(2))
    show ?thesis unfolding safeState_def using c1 c2 room by simp
  qed
qed

lemma safeState_processCommands:
  "safeState (fst s) \<Longrightarrow> safeState (fst (processCommands cmds s))"
  unfolding processCommands_def
  by (induction cmds arbitrary: s) (simp_all add: safeState_processCommand)

section \<open>The event log and the processed set\<close>

lemma pairedLog_append: "pairedLog xs \<Longrightarrow> pairedLog ys \<Longrightarrow> pairedLog (xs @ ys)"
  by (induction xs rule: pairedLog.induct) simp_all

lemma pairedLog_Execute: "pairedLog (fst (fst (Execute cmd e)))"
  by (cases rule: Execute_events_cases [where e = e and cmd = cmd]) simp_all

lemma processCommands_Nil [simp]: "processCommands [] s = s"
  by (simp add: processCommands_def)

lemma processCommands_Cons [simp]:
  "processCommands (c # cs) s = processCommands cs (processCommand c s)"
  by (simp add: processCommands_def)

lemma processCommands_append:
  "processCommands (cs @ ds) s = processCommands ds (processCommands cs s)"
  by (simp add: processCommands_def)

lemma pairedLog_processCommand: "pairedLog (snd s) \<Longrightarrow> pairedLog (snd (processCommand cmd s))"
  by (simp add: processCommand_eq pairedLog_append pairedLog_Execute)

lemma pairedLog_processCommands:
  "pairedLog (snd s) \<Longrightarrow> pairedLog (snd (processCommands cmds s))"
  by (induction cmds arbitrary: s) (simp_all add: pairedLog_processCommand)

lemma pairedLog_credit:
  "pairedLog L \<Longrightarrow> j < length L \<Longrightarrow> L ! j = MoneyCredited t b v \<Longrightarrow>
   0 < j \<and> (\<exists>a. L ! (j - 1) = MoneyDeducted t a v)"
proof (induction L arbitrary: j rule: pairedLog.induct)
  case (2 t1 a1 v1 t2 b2 v2 rest)
  show ?case
  proof (cases "j < 2")
    case True
    then have "j = 0 \<or> j = 1" by auto
    then show ?thesis using 2 by auto
  next
    case False
    then have "j = Suc (Suc (j - 2))" by simp
    then obtain k where k: "j = Suc (Suc k)" ..
    with 2 have "0 < k \<and> (\<exists>a. rest ! (k - 1) = MoneyDeducted t a v)" by simp
    then show ?thesis using k by (cases k) auto
  qed
next
  case (3 t1 f1 r1 rest)
  show ?case
  proof (cases j)
    case 0
    then show ?thesis using 3 by simp
  next
    case (Suc k)
    with 3 have "0 < k \<and> (\<exists>a. rest ! (k - 1) = MoneyDeducted t a v)" by simp
    then show ?thesis using Suc by (cases k) auto
  qed
qed simp_all

lemma pairedLog_deduct:
  "pairedLog L \<Longrightarrow> i < length L \<Longrightarrow> L ! i = MoneyDeducted t a v \<Longrightarrow>
   Suc i < length L \<and> (\<exists>b. L ! Suc i = MoneyCredited t b v)"
proof (induction L arbitrary: i rule: pairedLog.induct)
  case (2 t1 a1 v1 t2 b2 v2 rest)
  show ?case
  proof (cases "i < 2")
    case True
    then have "i = 0 \<or> i = 1" by auto
    then show ?thesis using 2 by auto
  next
    case False
    then have "i = Suc (Suc (i - 2))" by simp
    then obtain k where k: "i = Suc (Suc k)" ..
    with 2 show ?thesis by simp
  qed
next
  case (3 t1 f1 r1 rest)
  show ?case
  proof (cases i)
    case 0
    then show ?thesis using 3 by simp
  next
    case (Suc k)
    with 3 show ?thesis by simp
  qed
qed simp_all

lemma flagAt_applyEvent:
  "flagAt (processedTxns e) k \<Longrightarrow> flagAt (processedTxns (applyEvent ev e)) k"
  by (cases ev) (simp_all add: flagAt_def)

lemma flagAt_fold_applyEvent:
  "flagAt (processedTxns e) k \<Longrightarrow> flagAt (processedTxns (fold applyEvent evs e)) k"
  by (induction evs arbitrary: e) (simp_all add: flagAt_applyEvent del: applyEvent.simps)

lemma flagAt_processCommand:
  "flagAt (processedTxns (fst s)) k \<Longrightarrow> flagAt (processedTxns (fst (processCommand cmd s))) k"
  by (simp add: processCommand_eq flagAt_fold_applyEvent)

lemma flagAt_processCommands:
  "flagAt (processedTxns (fst s)) k \<Longrightarrow> flagAt (processedTxns (fst (processCommands cmds s))) k"
  by (induction cmds arbitrary: s) (simp_all add: flagAt_processCommand)

lemma processCommand_marks:
  "flagAt (processedTxns (fst (processCommand cmd s))) (TransactionID cmd)"
  by (cases rule: Execute_events_cases [where e = "fst s" and cmd = cmd])
     (simp_all add: processCommand_eq flagAt_def)

lemma processCommand_duplicate:
  "flagAt (processedTxns (fst s)) (TransactionID cmd) \<Longrightarrow> processCommand cmd s = s"
  by (simp add: processCommand_def Execute_duplicate)

section \<open>Strings and integers through JSON\<close>

lemma coerceFrom_valid: "validFrom k s \<Longrightarrow> coerceFrom k s = s"
  by (induction k s rule: coerceFrom.induct)
     (simp_all del: runeWidth.simps add: Let_def split: if_splits)

lemma jsonStringValue_valid: "validUTF8 s \<Longrightarrow> jsonStringValue s = s"
  by (simp add: validUTF8_def jsonStringValue_def coerceFrom_valid)

lemma int64_of_sint: "jsonToInt64 (Some (JNumber (sint (v::int64)))) = Inr v"
proof -
  have "- (2 ^ 63) \<le> sint v" using sint_ge [of v] by simp
  moreover have "sint v < 2 ^ 63" using sint_lt [of v] by simp
  ultimately show ?thesis by (simp add: jsonToInt64_def)
qed

lemma tags_valid:
  "jsonStringValue ''MoneyDeducted'' = ''MoneyDeducted''"
  "jsonStringValue ''MoneyCredited'' = ''MoneyCredited''"
  "jsonStringValue ''TransactionFailed'' = ''TransactionFailed''"
  by (simp_all add: jsonStringValue_def byteIn_def)

section \<open>Writing to and reading from the store\<close>

lemma SerializeEvent_Inr: "\<exists>data. SerializeEvent now event = Inr data"
  by (cases event) (simp_all add: SerializeEvent_def jsonMarshalEnvelope_def)



lemma decode_of_encode:
  assumes "stringsValidUTF8 e"
  shows "DeserializeEvent (projr (SerializeEvent now e)) = Inr e"
  using assms
  by (cases e)
     (simp_all add: SerializeEvent_def DeserializeEvent_def
        jsonMarshalEnvelope_def jsonUnmarshalEnvelope_def jsonUnmarshalAccountEvent_def
        jsonUnmarshalTransactionFailed_def jsonField_def jsonToString_def jsonToTime_def
        int64_of_sint tags_valid jsonStringValue_valid EventTypeMoneyDeducted_def
        EventTypeMoneyCredited_def EventTypeTransactionFailed_def)

lemma reasons_valid:
  "validUTF8 ''amount must be positive''"
  "validUTF8 ''cannot transfer to same account''"
  "validUTF8 ''insufficient funds''"
  by (simp_all add: validUTF8_def byteIn_def)

lemma Execute_events_valid:
  assumes "commandStringsValid cmd"
  shows "list_all stringsValidUTF8 (fst (fst (ExecuteWithContext cmd e)))"
  using assms
  by (simp add: ExecuteWithContext_def Let_def commandStringsValid_def reasons_valid)

lemma ExecuteWithContext_shape:
  "ExecuteWithContext cmd e = ((fst (fst (ExecuteWithContext cmd e)), None), e)"
  using Execute_shape [of cmd e] by (simp add: Execute_def)

lemma appendEach_memoryFile:
  "appendEach (\<lambda>e. SerializeEvent (clock e) e) memoryFile events f =
     (None, f @ map (\<lambda>e. projr (SerializeEvent (clock e) e)) events)"
proof (induction events arbitrary: f)
  case Nil
  show ?case by simp
next
  case (Cons ev evs)
  obtain d where d: "SerializeEvent (clock ev) ev = Inr d"
    using SerializeEvent_Inr [of "clock ev" ev] by blast
  have w: "fileWrite memoryFile f d = (f @ [d], None)"
    by (simp add: memoryFile_def)
  show ?case by (simp add: d w Cons.IH)
qed

lemma AppendBatch_memoryFile:
  "AppendBatch (\<lambda>e. SerializeEvent (clock e) e) memoryFile events f =
     (None, f @ map (\<lambda>e. projr (SerializeEvent (clock e) e)) events)"
  by (simp add: AppendBatch_def appendEach_memoryFile) (simp add: memoryFile_def)

lemma handleCommand_memoryFile:
  "handleCommand (\<lambda>e. SerializeEvent (clock e) e) memoryFile cmd s =
     (fold applyEvent (fst (fst (ExecuteWithContext cmd (fst s)))) (fst s),
      snd s @ map (\<lambda>e. projr (SerializeEvent (clock e) e))
                 (fst (fst (ExecuteWithContext cmd (fst s)))))"
  unfolding handleCommand_def
  by (subst ExecuteWithContext_shape) (simp add: AppendBatch_memoryFile)

lemma handleCommands_Nil [simp]: "handleCommands serialize os [] s = s"
  by (simp add: handleCommands_def)

lemma handleCommands_Cons [simp]:
  "handleCommands serialize os (c # cs) s =
     handleCommands serialize os cs (handleCommand serialize os c s)"
  by (simp add: handleCommands_def)

lemma handleCommands_memoryFile:
  assumes "list_all commandStringsValid cmds"
  shows "\<exists>L. list_all stringsValidUTF8 L
      \<and> snd (handleCommands (\<lambda>e. SerializeEvent (clock e) e) memoryFile cmds s) =
          snd s @ map (\<lambda>e. projr (SerializeEvent (clock e) e)) L
      \<and> fst (handleCommands (\<lambda>e. SerializeEvent (clock e) e) memoryFile cmds s) =
          fold applyEvent L (fst s)"
  using assms
proof (induction cmds arbitrary: s)
  case Nil
  have "list_all stringsValidUTF8 []" by simp
  then show ?case by (intro exI [of _ "[]"]) simp
next
  case (Cons c cs)
  let ?ser = "\<lambda>e. SerializeEvent (clock e) e"
  let ?E = "fst (fst (ExecuteWithContext c (fst s)))"
  let ?s1 = "handleCommand ?ser memoryFile c s"
  have vE: "list_all stringsValidUTF8 ?E"
    using Cons.prems by (simp add: Execute_events_valid)
  have s1: "?s1 = (fold applyEvent ?E (fst s), snd s @ map (\<lambda>e. projr (?ser e)) ?E)"
    by (rule handleCommand_memoryFile)
  from Cons.prems have "list_all commandStringsValid cs" by simp
  from Cons.IH [OF this, of ?s1]
  obtain L where L: "list_all stringsValidUTF8 L"
    "snd (handleCommands ?ser memoryFile cs ?s1) = snd ?s1 @ map (\<lambda>e. projr (?ser e)) L"
    "fst (handleCommands ?ser memoryFile cs ?s1) = fold applyEvent L (fst ?s1)"
    by blast
  have "list_all stringsValidUTF8 (?E @ L)" using vE L(1) by simp
  moreover have "snd (handleCommands ?ser memoryFile (c # cs) s) =
      snd s @ map (\<lambda>e. projr (?ser e)) (?E @ L)"
    using L(2) by (simp add: s1)
  moreover have "fst (handleCommands ?ser memoryFile (c # cs) s) = fold applyEvent (?E @ L) (fst s)"
    using L(3) by (simp add: s1)
  ultimately show ?case by blast
qed

lemma scanEvents_written:
  assumes "list_all stringsValidUTF8 L"
    and "list_all (lineFits lineLength) (map (\<lambda>e. projr (SerializeEvent (clock e) e)) L)"
  shows "scanEvents lineLength n (map (\<lambda>e. projr (SerializeEvent (clock e) e)) L) = Inr L"
  using assms
proof (induction L arbitrary: n)
  case Nil
  show ?case by simp
next
  case (Cons ev evs)
  let ?line = "projr (SerializeEvent (clock ev) ev)"
  have fit: "\<not> maxTokenSize < lineLength ?line + 1" "lineLength ?line \<noteq> 0"
    using Cons.prems(2) by (simp_all add: lineFits_def)
  have dec: "DeserializeEvent ?line = Inr ev"
    using Cons.prems(1) by (simp add: decode_of_encode)
  have rest: "scanEvents lineLength (n + 1) (map (\<lambda>e. projr (SerializeEvent (clock e) e)) evs)
      = Inr evs"
    using Cons.prems by (intro Cons.IH) simp_all
  show ?case using fit dec rest by simp
qed

section \<open>Conservation of the total balance\<close>

lemma total_applyEvent:
  "GetTotalBalance (applyEvent ev e) =
    (case ev of MoneyDeducted t a v \<Rightarrow> GetTotalBalance e - v
              | MoneyCredited t a v \<Rightarrow> GetTotalBalance e + v
              | TransactionFailed t f r \<Rightarrow> GetTotalBalance e)"
proof (cases ev)
  case (MoneyDeducted t a v)
  then show ?thesis
    using GetTotalBalance_fmupd [where e = e and a = a and v = "balanceAt (balances e) a - v"]
    by (simp add: GetTotalBalance_def)
next
  case (MoneyCredited t a v)
  then show ?thesis
    using GetTotalBalance_fmupd [where e = e and a = a and v = "balanceAt (balances e) a + v"]
    by (simp add: GetTotalBalance_def)
next
  case (TransactionFailed t f r)
  then show ?thesis by (simp add: GetTotalBalance_def)
qed

lemma total_processCommand:
  "GetTotalBalance (fst (processCommand cmd s)) = GetTotalBalance (fst s)"
  by (cases rule: Execute_events_cases [where e = "fst s" and cmd = cmd])
     (simp_all add: processCommand_eq total_applyEvent del: applyEvent.simps)

lemma total_processCommands:
  "GetTotalBalance (fst (processCommands cmds s)) = GetTotalBalance (fst s)"
  by (induction cmds arbitrary: s) (simp_all add: total_processCommand)

text \<open>
  Claim C1. For any finite sequence of transfer commands processed from any initial
  balances map (each command handled by \<open>Execute\<close>, the returned events then applied with
  \<open>applyEvent\<close>), the sum of all account balances after processing equals the sum before
  processing. The sum is the one the engine itself computes in \<open>GetTotalBalance\<close>, an
  \<open>int64\<close> accumulator over the map.
\<close>

theorem total_balance_conserved:
  "GetTotalBalance (fst (processCommands cmds (e, log))) = GetTotalBalance e"
  using total_processCommands [of cmds "(e, log)"] by simp

section \<open>Validation order\<close>

text \<open>
  Claim C2. For a command whose transaction id is not yet in \<open>processedTxns\<close>, \<open>Execute\<close>
  validates in this order, the first failure winning: a non-positive amount gives exactly
  one \<open>TransactionFailed\<close> with reason "amount must be positive"; otherwise equal source
  and target accounts give exactly one \<open>TransactionFailed\<close> with reason "cannot transfer to
  same account"; otherwise a source balance (an absent key reads as 0) below the amount
  gives exactly one \<open>TransactionFailed\<close> with reason "insufficient funds". No error is
  returned in any of these cases.
\<close>

theorem validation_order:
  assumes "\<not> flagAt (processedTxns e) (TransactionID cmd)"
  shows "(Amount cmd \<le>s 0 \<longrightarrow>
            fst (Execute cmd e) =
              ([TransactionFailed (TransactionID cmd) (FromAccount cmd)
                  ''amount must be positive''], None))
       \<and> (\<not> Amount cmd \<le>s 0 \<and> FromAccount cmd = ToAccount cmd \<longrightarrow>
            fst (Execute cmd e) =
              ([TransactionFailed (TransactionID cmd) (FromAccount cmd)
                  ''cannot transfer to same account''], None))
       \<and> (\<not> Amount cmd \<le>s 0 \<and> FromAccount cmd \<noteq> ToAccount cmd
            \<and> balanceAt (balances e) (FromAccount cmd) <s Amount cmd \<longrightarrow>
            fst (Execute cmd e) =
              ([TransactionFailed (TransactionID cmd) (FromAccount cmd)
                  ''insufficient funds''], None))"
  using assms
  by (simp add: Execute_not_positive Execute_same_account Execute_insufficient)

text \<open>
  The three rules at the inputs of the repository's validation test: an engine holding
  1000 for alice, a zero amount sent to the sender itself (the amount rule wins over the
  same-account rule), a transfer of 100 from alice to alice, and a transfer of 10000 from
  alice to bob.
\<close>

theorem validation_order_witness:
  "\<not> flagAt (processedTxns (SetBalance ''alice'' 1000 NewWalletEngine)) ''test-2''
   \<and> (0::int64) \<le>s 0
   \<and> fst (Execute \<lparr>TransactionID = ''test-2'', FromAccount = ''alice'', ToAccount = ''alice'',
                    Amount = 0\<rparr> (SetBalance ''alice'' 1000 NewWalletEngine)) =
       ([TransactionFailed ''test-2'' ''alice'' ''amount must be positive''], None)
   \<and> \<not> (100::int64) \<le>s 0
   \<and> fst (Execute \<lparr>TransactionID = ''test-3'', FromAccount = ''alice'', ToAccount = ''alice'',
                    Amount = 100\<rparr> (SetBalance ''alice'' 1000 NewWalletEngine)) =
       ([TransactionFailed ''test-3'' ''alice'' ''cannot transfer to same account''], None)
   \<and> balanceAt (balances (SetBalance ''alice'' 1000 NewWalletEngine)) ''alice'' <s 10000
   \<and> fst (Execute \<lparr>TransactionID = ''test-4'', FromAccount = ''alice'', ToAccount = ''bob'',
                    Amount = 10000\<rparr> (SetBalance ''alice'' 1000 NewWalletEngine)) =
       ([TransactionFailed ''test-4'' ''alice'' ''insufficient funds''], None)"
proof -
  let ?e = "SetBalance ''alice'' 1000 NewWalletEngine"
  have nd: "\<not> flagAt (processedTxns ?e) k" for k
    by (simp add: SetBalance_def NewWalletEngine_def flagAt_def)
  have lt: "balanceAt (balances ?e) ''alice'' <s 10000"
    by (simp add: SetBalance_def NewWalletEngine_def balanceAt_def)
  have z: "(0::int64) \<le>s 0" by simp
  have p1: "\<not> (10000::int64) \<le>s 0" by (simp add: word_sle_eq)
  have p2: "\<not> (100::int64) \<le>s 0" by (simp add: word_sle_eq)
  show ?thesis
    using validation_order [of ?e "\<lparr>TransactionID = ''test-2'', FromAccount = ''alice'',
             ToAccount = ''alice'', Amount = 0\<rparr>"]
          validation_order [of ?e "\<lparr>TransactionID = ''test-3'', FromAccount = ''alice'',
             ToAccount = ''alice'', Amount = 100\<rparr>"]
          validation_order [of ?e "\<lparr>TransactionID = ''test-4'', FromAccount = ''alice'',
             ToAccount = ''bob'', Amount = 10000\<rparr>"]
          nd lt z p1 p2
    by simp
qed

section \<open>Non-negative balances\<close>

text \<open>
  Claim C6, as stated: from any engine state in which every balance is at least 0, every
  balance is at least 0 after processing any sequence of commands. It fails on the code:
  \<open>applyEvent\<close> credits with a wrapping \<open>int64\<close> addition and nothing bounds the target
  balance. With 1 on account a and the largest \<open>int64\<close> on account b, a transfer of 1
  from a to b passes every validation rule and leaves b at the smallest \<open>int64\<close>.
\<close>

theorem non_negativity_counterexample:
  "balancesNonNegative
     \<lparr>balances = fmupd ''b'' 0x7FFFFFFFFFFFFFFF (fmupd ''a'' 1 fmempty),
      processedTxns = fmempty\<rparr>
   \<and> \<not> balancesNonNegative
     (fst (processCommands
        [\<lparr>TransactionID = ''t1'', FromAccount = ''a'', ToAccount = ''b'', Amount = 1\<rparr>]
        (\<lparr>balances = fmupd ''b'' 0x7FFFFFFFFFFFFFFF (fmupd ''a'' 1 fmempty),
          processedTxns = fmempty\<rparr>, [])))"
  by (simp add: balancesNonNegative_def processCommand_def Execute_def
      ExecuteWithContext_def flagAt_def balanceAt_def word_sle_eq word_sless_alt)

text \<open>
  Claim C6, amended: from any engine state in which every balance is at least 0 and the
  exact sum of the balances is at most \<open>2 ^ 63 - 1\<close>, every balance is at least 0 after
  each prefix of any sequence of commands, that is, at every state between two command
  acknowledgments.
\<close>

theorem non_negativity_within_range:
  assumes "balancesNonNegative e" and "exactTotal e \<le> 2 ^ 63 - 1"
  shows "balancesNonNegative (fst (processCommands (take n cmds) (e, log)))"
proof -
  have "safeState (fst (e, log))" using assms by (simp add: safeState_def)
  then have "safeState (fst (processCommands (take n cmds) (e, log)))"
    by (rule safeState_processCommands)
  then show ?thesis by (simp add: safeState_def)
qed

text \<open>
  The first transfer of the repository's business-validation test: sender holds 100 and
  sends 20 to receiver.
\<close>

theorem non_negativity_within_range_witness:
  "balancesNonNegative \<lparr>balances = fmupd ''sender'' 100 fmempty, processedTxns = fmempty\<rparr>
   \<and> exactTotal \<lparr>balances = fmupd ''sender'' 100 fmempty, processedTxns = fmempty\<rparr> \<le> 2 ^ 63 - 1
   \<and> balancesNonNegative (fst (processCommands (take 1
        [\<lparr>TransactionID = ''t1'', FromAccount = ''sender'', ToAccount = ''receiver'', Amount = 20\<rparr>])
        (\<lparr>balances = fmupd ''sender'' 100 fmempty, processedTxns = fmempty\<rparr>, [])))
   \<and> GetBalance ''receiver'' (fst (processCommands (take 1
        [\<lparr>TransactionID = ''t1'', FromAccount = ''sender'', ToAccount = ''receiver'', Amount = 20\<rparr>])
        (\<lparr>balances = fmupd ''sender'' 100 fmempty, processedTxns = fmempty\<rparr>, []))) = 20"
proof -
  let ?e = "\<lparr>balances = fmupd ''sender'' (100::int64) fmempty, processedTxns = fmempty\<rparr>"
  have h1: "balancesNonNegative ?e"
    by (simp add: balancesNonNegative_def balanceAt_def word_sle_eq)
  have h2: "exactTotal ?e \<le> 2 ^ 63 - 1"
    by (simp add: exactTotal_def balanceAt_def)
  have h3: "GetBalance ''receiver'' (fst (processCommands (take 1
        [\<lparr>TransactionID = ''t1'', FromAccount = ''sender'', ToAccount = ''receiver'', Amount = 20\<rparr>])
        (?e, []))) = 20"
    by (simp add: GetBalance_def processCommand_def Execute_def
      ExecuteWithContext_def flagAt_def balanceAt_def word_sle_eq word_sless_alt)
  show ?thesis
    using non_negativity_within_range [OF h1 h2, of 1 _ "[]"] h1 h2 h3 by blast
qed

section \<open>Success events and their order in the log\<close>

text \<open>
  Claim C3. A command that is not a duplicate and passes all three validation rules makes
  \<open>Execute\<close> return exactly \<open>[MoneyDeducted (txn, from, amount), MoneyCredited (txn, to,
  amount)]\<close>, the deduction first. Consequently, in the log written while processing any
  commands from an empty log, every \<open>MoneyCredited\<close> stands directly after a
  \<open>MoneyDeducted\<close> of the same transaction id and amount, and every \<open>MoneyDeducted\<close> is
  directly followed by such a \<open>MoneyCredited\<close>.
\<close>

theorem success_events_ordered:
  "(\<not> flagAt (processedTxns e) (TransactionID cmd) \<and> \<not> Amount cmd \<le>s 0
      \<and> FromAccount cmd \<noteq> ToAccount cmd
      \<and> \<not> balanceAt (balances e) (FromAccount cmd) <s Amount cmd \<longrightarrow>
      fst (Execute cmd e) =
        ([MoneyDeducted (TransactionID cmd) (FromAccount cmd) (Amount cmd),
          MoneyCredited (TransactionID cmd) (ToAccount cmd) (Amount cmd)], None))
   \<and> (\<forall>j < length (snd (processCommands cmds (e, []))). \<forall>t b v.
        snd (processCommands cmds (e, [])) ! j = MoneyCredited t b v \<longrightarrow>
        0 < j \<and> (\<exists>a. snd (processCommands cmds (e, [])) ! (j - 1) = MoneyDeducted t a v))
   \<and> (\<forall>i < length (snd (processCommands cmds (e, []))). \<forall>t a v.
        snd (processCommands cmds (e, [])) ! i = MoneyDeducted t a v \<longrightarrow>
        Suc i < length (snd (processCommands cmds (e, []))) \<and>
        (\<exists>b. snd (processCommands cmds (e, [])) ! Suc i = MoneyCredited t b v))"
proof -
  have p: "pairedLog (snd (processCommands cmds (e, [])))"
    by (rule pairedLog_processCommands) simp
  show ?thesis
    using pairedLog_credit [OF p] pairedLog_deduct [OF p]
    by (simp add: Execute_success)
qed

text \<open>The first transfer of the repository's idempotency test, alice holding 1000.\<close>

theorem success_events_ordered_witness:
  "fst (Execute \<lparr>TransactionID = ''test-txn-123'', FromAccount = ''alice'', ToAccount = ''bob'',
          Amount = 100\<rparr> (SetBalance ''alice'' 1000 NewWalletEngine)) =
     ([MoneyDeducted ''test-txn-123'' ''alice'' 100, MoneyCredited ''test-txn-123'' ''bob'' 100],
      None)
   \<and> snd (processCommands
        [\<lparr>TransactionID = ''test-txn-123'', FromAccount = ''alice'', ToAccount = ''bob'',
           Amount = 100\<rparr>] (SetBalance ''alice'' 1000 NewWalletEngine, [])) ! 1 =
       MoneyCredited ''test-txn-123'' ''bob'' 100
   \<and> snd (processCommands
        [\<lparr>TransactionID = ''test-txn-123'', FromAccount = ''alice'', ToAccount = ''bob'',
           Amount = 100\<rparr>] (SetBalance ''alice'' 1000 NewWalletEngine, [])) ! 0 =
       MoneyDeducted ''test-txn-123'' ''alice'' 100"
proof -
  let ?e = "SetBalance ''alice'' 1000 NewWalletEngine"
  let ?c = "\<lparr>TransactionID = ''test-txn-123'', FromAccount = ''alice'', ToAccount = ''bob'',
          Amount = (100::int64)\<rparr>"
  have nd: "\<not> flagAt (processedTxns ?e) (TransactionID ?c)"
    by (simp add: SetBalance_def NewWalletEngine_def flagAt_def)
  have pos: "\<not> Amount ?c \<le>s 0" by (simp add: word_sle_eq)
  have ne: "FromAccount ?c \<noteq> ToAccount ?c" by simp
  have enough: "\<not> balanceAt (balances ?e) (FromAccount ?c) <s Amount ?c"
    by (simp add: SetBalance_def NewWalletEngine_def balanceAt_def)
  have ex: "fst (Execute ?c ?e) =
     ([MoneyDeducted ''test-txn-123'' ''alice'' 100, MoneyCredited ''test-txn-123'' ''bob'' 100],
      None)"
    using success_events_ordered [of ?e ?c "[?c]"] nd pos ne enough by simp
  have log: "snd (processCommands [?c] (?e, [])) =
     [MoneyDeducted ''test-txn-123'' ''alice'' 100, MoneyCredited ''test-txn-123'' ''bob'' 100]"
    using ex by (simp add: processCommand_eq)
  show ?thesis using ex log by simp
qed

section \<open>Idempotent processing\<close>

text \<open>
  Claim C4. If the transaction id of a command is already in \<open>processedTxns\<close>, \<open>Execute\<close>
  returns no events and no error and leaves the engine unchanged; and for any command
  \<open>c\<close>, processing \<open>[c, c]\<close> ends in the same engine state and the same log as processing
  \<open>[c]\<close>.
\<close>

theorem duplicate_is_idempotent:
  "(flagAt (processedTxns e) (TransactionID c) \<longrightarrow> Execute c e = (([], None), e))
   \<and> processCommands [c, c] (e, log) = processCommands [c] (e, log)"
  using processCommand_duplicate [OF processCommand_marks [of c "(e, log)"]]
  by (simp add: Execute_duplicate)

text \<open>
  The repository's idempotency scenario: alice holds 1000 and the transfer X of 100 to bob
  is submitted twice; the second submission finds X processed and yields no events, alice
  ends at 900 and the log holds the two events of the first submission.
\<close>

theorem duplicate_is_idempotent_witness:
  "flagAt (processedTxns (fst (processCommands
       [\<lparr>TransactionID = ''X'', FromAccount = ''alice'', ToAccount = ''bob'', Amount = 100\<rparr>]
       (SetBalance ''alice'' 1000 NewWalletEngine, [])))) ''X''
   \<and> fst (Execute \<lparr>TransactionID = ''X'', FromAccount = ''alice'', ToAccount = ''bob'',
                    Amount = 100\<rparr>
        (fst (processCommands
          [\<lparr>TransactionID = ''X'', FromAccount = ''alice'', ToAccount = ''bob'', Amount = 100\<rparr>]
          (SetBalance ''alice'' 1000 NewWalletEngine, [])))) = ([], None)
   \<and> GetBalance ''alice'' (fst (processCommands
       [\<lparr>TransactionID = ''X'', FromAccount = ''alice'', ToAccount = ''bob'', Amount = 100\<rparr>,
        \<lparr>TransactionID = ''X'', FromAccount = ''alice'', ToAccount = ''bob'', Amount = 100\<rparr>]
       (SetBalance ''alice'' 1000 NewWalletEngine, []))) = 900
   \<and> length (snd (processCommands
       [\<lparr>TransactionID = ''X'', FromAccount = ''alice'', ToAccount = ''bob'', Amount = 100\<rparr>,
        \<lparr>TransactionID = ''X'', FromAccount = ''alice'', ToAccount = ''bob'', Amount = 100\<rparr>]
       (SetBalance ''alice'' 1000 NewWalletEngine, []))) = 2"
proof -
  let ?e = "SetBalance ''alice'' 1000 NewWalletEngine"
  let ?c = "\<lparr>TransactionID = ''X'', FromAccount = ''alice'', ToAccount = ''bob'',
             Amount = (100::int64)\<rparr>"
  let ?s = "processCommands [?c] (?e, [])"
  have one: "?s =
    (\<lparr>balances = fmupd ''bob'' 100 (fmupd ''alice'' 900 (fmupd ''alice'' 1000 fmempty)),
      processedTxns = fmupd ''X'' True fmempty\<rparr>,
     [MoneyDeducted ''X'' ''alice'' 100, MoneyCredited ''X'' ''bob'' 100])"
    by (simp add: processCommand_def Execute_def ExecuteWithContext_def SetBalance_def
        NewWalletEngine_def flagAt_def balanceAt_def word_sle_eq word_sless_alt)
  have dup: "flagAt (processedTxns (fst ?s)) (TransactionID ?c)"
    unfolding one by (simp add: flagAt_def)
  have bal: "GetBalance ''alice'' (fst ?s) = 900" and len: "length (snd ?s) = 2"
    unfolding one by (simp_all add: GetBalance_def balanceAt_def)
  show ?thesis
    using duplicate_is_idempotent [of "fst ?s" ?c "[]"]
          duplicate_is_idempotent [of ?e ?c "[]"] dup bal len
    by simp
qed

section \<open>Replay\<close>

text \<open>
  Claim C7, as stated: for any event log produced by a run of the engine, a fresh engine
  given the same \<open>SetBalance\<close> calls and then every event of the log in order ends with the
  balances map of the originating engine. The log is the store file, and replay reads it
  back through \<open>LoadAll\<close> and \<open>DeserializeEvent\<close>. It fails for an account name that is
  not valid UTF-8: with 100 on the account named by the single byte FF, a transfer of 50
  from it to bob leaves 50 on that account, while the deduction is written, and read back,
  under the name U+FFFD, so that the replayed engine still holds 100 there.
\<close>

theorem replay_counterexample:
  "fst (InitializeFromEventStore
      (LoadAll (\<lambda>line. 128) memoryFile
         (snd (handleCommands (\<lambda>e. SerializeEvent ''2024-01-01T00:00:00Z'' e) memoryFile
            [\<lparr>TransactionID = ''t1'', FromAccount = [CHR 0xFF], ToAccount = ''bob'',
               Amount = 50\<rparr>]
            (SetBalance [CHR 0xFF] 100 NewWalletEngine, []))))
      (SetBalance [CHR 0xFF] 100 NewWalletEngine)) = None
   \<and> GetBalance [CHR 0xFF] (snd (InitializeFromEventStore
      (LoadAll (\<lambda>line. 128) memoryFile
         (snd (handleCommands (\<lambda>e. SerializeEvent ''2024-01-01T00:00:00Z'' e) memoryFile
            [\<lparr>TransactionID = ''t1'', FromAccount = [CHR 0xFF], ToAccount = ''bob'',
               Amount = 50\<rparr>]
            (SetBalance [CHR 0xFF] 100 NewWalletEngine, []))))
      (SetBalance [CHR 0xFF] 100 NewWalletEngine))) = 100
   \<and> GetBalance [CHR 0xFF]
        (fst (handleCommands (\<lambda>e. SerializeEvent ''2024-01-01T00:00:00Z'' e) memoryFile
            [\<lparr>TransactionID = ''t1'', FromAccount = [CHR 0xFF], ToAccount = ''bob'',
               Amount = 50\<rparr>]
            (SetBalance [CHR 0xFF] 100 NewWalletEngine, []))) = 50
   \<and> GetAllBalances (snd (InitializeFromEventStore
      (LoadAll (\<lambda>line. 128) memoryFile
         (snd (handleCommands (\<lambda>e. SerializeEvent ''2024-01-01T00:00:00Z'' e) memoryFile
            [\<lparr>TransactionID = ''t1'', FromAccount = [CHR 0xFF], ToAccount = ''bob'',
               Amount = 50\<rparr>]
            (SetBalance [CHR 0xFF] 100 NewWalletEngine, []))))
      (SetBalance [CHR 0xFF] 100 NewWalletEngine)))
     \<noteq> GetAllBalances
        (fst (handleCommands (\<lambda>e. SerializeEvent ''2024-01-01T00:00:00Z'' e) memoryFile
            [\<lparr>TransactionID = ''t1'', FromAccount = [CHR 0xFF], ToAccount = ''bob'',
               Amount = 50\<rparr>]
            (SetBalance [CHR 0xFF] 100 NewWalletEngine, [])))"
proof -
  let ?e0 = "SetBalance [CHR 0xFF] 100 NewWalletEngine"
  let ?c = "\<lparr>TransactionID = ''t1'', FromAccount = [CHR 0xFF], ToAccount = ''bob'',
               Amount = (50::int64)\<rparr>"
  let ?run = "handleCommands (\<lambda>e. SerializeEvent ''2024-01-01T00:00:00Z'' e) memoryFile [?c]
               (?e0, [])"
  have ex: "fst (fst (ExecuteWithContext ?c ?e0)) =
      [MoneyDeducted ''t1'' [CHR 0xFF] 50, MoneyCredited ''t1'' ''bob'' 50]"
    by (simp add: ExecuteWithContext_def SetBalance_def NewWalletEngine_def flagAt_def
        balanceAt_def word_sle_eq word_sless_alt)
  have run: "?run =
      (fold applyEvent (fst (fst (ExecuteWithContext ?c ?e0))) ?e0,
       map (\<lambda>e. projr (SerializeEvent ''2024-01-01T00:00:00Z'' e))
         (fst (fst (ExecuteWithContext ?c ?e0))))"
    using handleCommand_memoryFile [where clock = "\<lambda>e. ''2024-01-01T00:00:00Z''"
        and cmd = ?c and s = "(?e0, [])"]
    by simp
  have written: "snd ?run =
      [JObject [(''type'', JString ''MoneyDeducted''),
                (''timestamp'', JString ''2024-01-01T00:00:00Z''),
                (''data'', JObject [(''transaction_id'', JString ''t1''),
                                    (''account'', JString [CHR 0xEF, CHR 0xBF, CHR 0xBD]),
                                    (''amount'', JNumber 50)])],
       JObject [(''type'', JString ''MoneyCredited''),
                (''timestamp'', JString ''2024-01-01T00:00:00Z''),
                (''data'', JObject [(''transaction_id'', JString ''t1''),
                                    (''account'', JString ''bob''),
                                    (''amount'', JNumber 50)])]]"
    unfolding run ex
    by (simp add: SerializeEvent_def jsonMarshalEnvelope_def
        jsonStringValue_def byteIn_def EventTypeMoneyDeducted_def EventTypeMoneyCredited_def)
  have orig: "GetBalance [CHR 0xFF] (fst ?run) = 50"
    unfolding run ex
    by (simp add: GetBalance_def SetBalance_def NewWalletEngine_def balanceAt_def)
  have load: "LoadAll (\<lambda>line. 128) memoryFile (snd ?run) =
      Inr [MoneyDeducted ''t1'' [CHR 0xEF, CHR 0xBF, CHR 0xBD] 50,
           MoneyCredited ''t1'' ''bob'' 50]"
    unfolding written
    by (simp add: LoadAll_def memoryFile_def maxTokenSize_def DeserializeEvent_def
        jsonUnmarshalEnvelope_def jsonUnmarshalAccountEvent_def jsonField_def
        jsonToString_def jsonToTime_def jsonToInt64_def EventTypeMoneyDeducted_def
        EventTypeMoneyCredited_def)
  have rep: "GetBalance [CHR 0xFF]
      (snd (InitializeFromEventStore (LoadAll (\<lambda>line. 128) memoryFile (snd ?run)) ?e0)) = 100"
    unfolding load
    by (simp add: InitializeFromEventStore_def GetBalance_def SetBalance_def
        NewWalletEngine_def balanceAt_def)
  have ok: "fst (InitializeFromEventStore (LoadAll (\<lambda>line. 128) memoryFile (snd ?run)) ?e0)
      = None"
    unfolding load by (simp add: InitializeFromEventStore_def)
  have differ: "GetAllBalances
      (snd (InitializeFromEventStore (LoadAll (\<lambda>line. 128) memoryFile (snd ?run)) ?e0))
      \<noteq> GetAllBalances (fst ?run)"
  proof
    assume "GetAllBalances
      (snd (InitializeFromEventStore (LoadAll (\<lambda>line. 128) memoryFile (snd ?run)) ?e0))
      = GetAllBalances (fst ?run)"
    then have "GetBalance [CHR 0xFF]
      (snd (InitializeFromEventStore (LoadAll (\<lambda>line. 128) memoryFile (snd ?run)) ?e0))
      = GetBalance [CHR 0xFF] (fst ?run)"
      by (simp add: GetBalance_def GetAllBalances_def)
    then show False using rep orig by simp
  qed
  show ?thesis using ok rep orig differ by simp
qed

text \<open>
  Claim C7, amended: let an engine be given its starting balances by \<open>SetBalance\<close> calls
  and handle any commands whose strings are valid UTF-8, every append to the store
  succeeding. If every line of the resulting store file is not empty and fits, with its
  newline, the scanner buffer of 1 MiB, then a fresh engine given the same \<open>SetBalance\<close>
  calls and initialized from the store file ends without error in the state of the
  originating engine; in particular the two balances maps are equal.
\<close>

theorem replay_through_store:
  fixes clock :: "Event \<Rightarrow> string" and inits :: "(string \<times> int64) list"
    and cmds :: "TransferCommand list"
  defines "e0 \<equiv> fold (\<lambda>(a, b). SetBalance a b) inits NewWalletEngine"
  defines "run \<equiv> handleCommands (\<lambda>e. SerializeEvent (clock e) e) memoryFile cmds (e0, [])"
  assumes "\<forall>cmd \<in> set cmds. commandStringsValid cmd"
    and "\<forall>line \<in> set (snd run). lineFits lineLength line"
  shows "InitializeFromEventStore (LoadAll lineLength memoryFile (snd run)) e0 = (None, fst run)
    \<and> GetAllBalances (snd (InitializeFromEventStore (LoadAll lineLength memoryFile (snd run)) e0))
        = GetAllBalances (fst run)"
proof -
  have "list_all commandStringsValid cmds" using assms(3) by (simp add: list_all_iff)
  from handleCommands_memoryFile [OF this, of clock "(e0, [])"]
  obtain L where L: "list_all stringsValidUTF8 L"
    "snd run = map (\<lambda>e. projr (SerializeEvent (clock e) e)) L"
    "fst run = fold applyEvent L e0"
    unfolding run_def by auto
  have "list_all (lineFits lineLength) (map (\<lambda>e. projr (SerializeEvent (clock e) e)) L)"
    using assms(4) L(2) by (simp add: list_all_iff)
  with L(1) have "scanEvents lineLength 0 (snd run) = Inr L"
    unfolding L(2) by (rule scanEvents_written)
  then have "LoadAll lineLength memoryFile (snd run) = Inr L"
    by (simp add: LoadAll_def memoryFile_def)
  then show ?thesis by (simp add: InitializeFromEventStore_def L(3))
qed

text \<open>
  The first transfer of the repository's replay test: alice holds 1000 and sends 100 to
  bob; the file holds two lines and the replayed engine has 900 for alice.
\<close>

theorem replay_through_store_witness:
  "commandStringsValid
     \<lparr>TransactionID = ''txn-1'', FromAccount = ''alice'', ToAccount = ''bob'', Amount = 100\<rparr>
   \<and> lineFits (\<lambda>line. 128)
       (hd (snd (handleCommands (\<lambda>e. SerializeEvent ''2024-01-01T00:00:00Z'' e) memoryFile
          [\<lparr>TransactionID = ''txn-1'', FromAccount = ''alice'', ToAccount = ''bob'',
             Amount = 100\<rparr>]
          (fold (\<lambda>(a, b). SetBalance a b) [(''alice'', 1000)] NewWalletEngine, []))))
   \<and> length (snd (handleCommands (\<lambda>e. SerializeEvent ''2024-01-01T00:00:00Z'' e) memoryFile
          [\<lparr>TransactionID = ''txn-1'', FromAccount = ''alice'', ToAccount = ''bob'',
             Amount = 100\<rparr>]
          (fold (\<lambda>(a, b). SetBalance a b) [(''alice'', 1000)] NewWalletEngine, []))) = 2
   \<and> GetBalance ''alice'' (snd (InitializeFromEventStore
        (LoadAll (\<lambda>line. 128) memoryFile
          (snd (handleCommands (\<lambda>e. SerializeEvent ''2024-01-01T00:00:00Z'' e) memoryFile
            [\<lparr>TransactionID = ''txn-1'', FromAccount = ''alice'', ToAccount = ''bob'',
               Amount = 100\<rparr>]
            (fold (\<lambda>(a, b). SetBalance a b) [(''alice'', 1000)] NewWalletEngine, []))))
        (fold (\<lambda>(a, b). SetBalance a b) [(''alice'', 1000)] NewWalletEngine))) = 900"
proof -
  let ?e0 = "fold (\<lambda>(a, b). SetBalance a b) [(''alice'', 1000)] NewWalletEngine"
  let ?c = "\<lparr>TransactionID = ''txn-1'', FromAccount = ''alice'', ToAccount = ''bob'',
             Amount = (100::int64)\<rparr>"
  let ?run = "handleCommands (\<lambda>e. SerializeEvent ''2024-01-01T00:00:00Z'' e) memoryFile [?c]
               (?e0, [])"
  have v: "\<forall>cmd \<in> set [?c]. commandStringsValid cmd"
    by (simp add: commandStringsValid_def validUTF8_def byteIn_def)
  have fits: "\<forall>line \<in> set (snd ?run). lineFits (\<lambda>line. 128) line"
    by (simp add: lineFits_def maxTokenSize_def)
  have ex: "fst (fst (ExecuteWithContext ?c ?e0)) =
      [MoneyDeducted ''txn-1'' ''alice'' 100, MoneyCredited ''txn-1'' ''bob'' 100]"
    by (simp add: ExecuteWithContext_def SetBalance_def NewWalletEngine_def flagAt_def
        balanceAt_def word_sle_eq word_sless_alt)
  have run: "?run =
      (fold applyEvent (fst (fst (ExecuteWithContext ?c ?e0))) ?e0,
       map (\<lambda>e. projr (SerializeEvent ''2024-01-01T00:00:00Z'' e))
         (fst (fst (ExecuteWithContext ?c ?e0))))"
    using handleCommand_memoryFile [where clock = "\<lambda>e. ''2024-01-01T00:00:00Z''"
        and cmd = ?c and s = "(?e0, [])"]
    by simp
  have len: "length (snd ?run) = 2"
    unfolding run ex by simp
  have orig: "GetBalance ''alice'' (fst ?run) = 900"
    unfolding run ex
    by (simp add: GetBalance_def SetBalance_def NewWalletEngine_def balanceAt_def)
  have same: "snd (InitializeFromEventStore (LoadAll (\<lambda>line. 128) memoryFile (snd ?run)) ?e0)
      = fst ?run"
    using replay_through_store [of "[?c]" "\<lambda>e. ''2024-01-01T00:00:00Z''" "[(''alice'', 1000)]"
        "\<lambda>line. 128", OF v fits]
    by simp
  show ?thesis using v len orig same
    by (simp add: lineFits_def maxTokenSize_def)
qed

section \<open>A failed transaction id stays consumed\<close>

text \<open>
  Claim C8. Once a command with transaction id X has produced a \<open>TransactionFailed\<close> event
  and that event was applied, then after any further commands every command carrying X
  gets an empty event list from \<open>Execute\<close>: it can never succeed, even when the cause of
  the failure has gone.
\<close>

theorem failed_id_is_consumed:
  assumes "fst (fst (Execute c e)) = [TransactionFailed t f r]"
    and "TransactionID c' = TransactionID c"
  shows "fst (Execute c' (fst (processCommands cmds (processCommand c (e, log))))) = ([], None)"
proof -
  have "flagAt (processedTxns (fst (processCommand c (e, log)))) (TransactionID c)"
    by (rule processCommand_marks)
  then have "flagAt (processedTxns (fst (processCommands cmds (processCommand c (e, log)))))
      (TransactionID c')"
    using assms(2) by (simp add: flagAt_processCommands)
  then show ?thesis by (simp add: Execute_duplicate)
qed

text \<open>
  alice has nothing and fails to send 100 under id X; carol then sends her 500; the retry
  of X still yields no events although alice now holds 500.
\<close>

theorem failed_id_is_consumed_witness:
  "fst (fst (Execute \<lparr>TransactionID = ''X'', FromAccount = ''alice'', ToAccount = ''bob'',
                        Amount = 100\<rparr> (SetBalance ''carol'' 500 NewWalletEngine))) =
     [TransactionFailed ''X'' ''alice'' ''insufficient funds'']
   \<and> GetBalance ''alice'' (fst (processCommands
        [\<lparr>TransactionID = ''Y'', FromAccount = ''carol'', ToAccount = ''alice'', Amount = 500\<rparr>]
        (processCommand \<lparr>TransactionID = ''X'', FromAccount = ''alice'', ToAccount = ''bob'',
                          Amount = 100\<rparr> (SetBalance ''carol'' 500 NewWalletEngine, [])))) = 500
   \<and> fst (Execute \<lparr>TransactionID = ''X'', FromAccount = ''alice'', ToAccount = ''bob'',
                   Amount = 100\<rparr>
        (fst (processCommands
        [\<lparr>TransactionID = ''Y'', FromAccount = ''carol'', ToAccount = ''alice'', Amount = 500\<rparr>]
        (processCommand \<lparr>TransactionID = ''X'', FromAccount = ''alice'', ToAccount = ''bob'',
                          Amount = 100\<rparr> (SetBalance ''carol'' 500 NewWalletEngine, []))))) =
       ([], None)"
proof -
  let ?e = "SetBalance ''carol'' 500 NewWalletEngine"
  let ?c = "\<lparr>TransactionID = ''X'', FromAccount = ''alice'', ToAccount = ''bob'',
             Amount = (100::int64)\<rparr>"
  let ?d = "\<lparr>TransactionID = ''Y'', FromAccount = ''carol'', ToAccount = ''alice'',
             Amount = (500::int64)\<rparr>"
  have h: "fst (fst (Execute ?c ?e)) = [TransactionFailed ''X'' ''alice'' ''insufficient funds'']"
    by (simp add: Execute_def ExecuteWithContext_def SetBalance_def
        NewWalletEngine_def flagAt_def balanceAt_def word_sle_eq word_sless_alt)
  have b: "GetBalance ''alice'' (fst (processCommands [?d] (processCommand ?c (?e, [])))) = 500"
    by (simp add: GetBalance_def processCommand_def Execute_def ExecuteWithContext_def
        SetBalance_def NewWalletEngine_def flagAt_def balanceAt_def word_sle_eq word_sless_alt)
  show ?thesis
    using failed_id_is_consumed [OF h, of ?c "[?d]" "[]"] h b by simp
qed

section \<open>Execute leaves the engine untouched\<close>

text \<open>
  Claim C10. For every command and every engine state, \<open>ExecuteWithContext\<close> returns a nil
  error and leaves both the balances map and the processed-transactions map exactly as
  they were; state changes only in the separate apply step.
\<close>

theorem execute_read_only:
  "snd (fst (ExecuteWithContext cmd e)) = None \<and>
   balances (snd (ExecuteWithContext cmd e)) = balances e \<and>
   processedTxns (snd (ExecuteWithContext cmd e)) = processedTxns e"
  by (simp add: ExecuteWithContext_def Let_def)

section \<open>Serialization failures in a batch\<close>


section \<open>Codec round trip\<close>

text \<open>
  Claim C9, as stated: for every event of the three variants, decoding the encoding
  succeeds and returns the event. It fails for an event holding a string that is not valid
  UTF-8: the transaction id made of the single byte FF comes back as the three bytes of
  U+FFFD.
\<close>

theorem codec_round_trip_counterexample:
  "decodeEncoded ''2024-01-01T00:00:00Z'' (MoneyDeducted [CHR 0xFF] ''alice'' 100)
     = Inr (MoneyDeducted [CHR 0xEF, CHR 0xBF, CHR 0xBD] ''alice'' 100)
   \<and> decodeEncoded ''2024-01-01T00:00:00Z'' (MoneyDeducted [CHR 0xFF] ''alice'' 100)
     \<noteq> Inr (MoneyDeducted [CHR 0xFF] ''alice'' 100)"
  by (simp add: decodeEncoded_def SerializeEvent_def DeserializeEvent_def
        jsonMarshalEnvelope_def jsonUnmarshalEnvelope_def jsonUnmarshalAccountEvent_def
        jsonField_def jsonToString_def jsonToTime_def jsonToInt64_def
        EventTypeMoneyDeducted_def jsonStringValue_def byteIn_def)

text \<open>
  Claim C9, amended: for every event of the three variants whose string fields are valid
  UTF-8, and for every timestamp put into the envelope, \<open>SerializeEvent\<close> succeeds and
  \<open>DeserializeEvent\<close> applied to its result succeeds and returns the event.
\<close>

theorem codec_round_trip:
  assumes "stringsValidUTF8 e"
  shows "(\<exists>data. SerializeEvent now e = Inr data) \<and> decodeEncoded now e = Inr e"
  using assms
  by (cases e)
     (simp_all add: decodeEncoded_def SerializeEvent_def DeserializeEvent_def
        jsonMarshalEnvelope_def jsonUnmarshalEnvelope_def jsonUnmarshalAccountEvent_def
        jsonUnmarshalTransactionFailed_def jsonField_def jsonToString_def jsonToTime_def int64_of_sint
        tags_valid jsonStringValue_valid EventTypeMoneyDeducted_def EventTypeMoneyCredited_def
        EventTypeTransactionFailed_def)

text \<open>The failure event of the repository's event-store test.\<close>

theorem codec_round_trip_witness:
  "stringsValidUTF8 (TransactionFailed ''txn-2'' ''charlie'' ''insufficient funds'')
   \<and> SerializeEvent ''2024-01-01T00:00:00Z''
        (TransactionFailed ''txn-2'' ''charlie'' ''insufficient funds'') =
       Inr (JObject [(''type'', JString ''TransactionFailed''),
                     (''timestamp'', JString ''2024-01-01T00:00:00Z''),
                     (''data'', JObject [(''transaction_id'', JString ''txn-2''),
                                         (''from_account'', JString ''charlie''),
                                         (''reason'', JString ''insufficient funds'')])])
   \<and> decodeEncoded ''2024-01-01T00:00:00Z''
        (TransactionFailed ''txn-2'' ''charlie'' ''insufficient funds'') =
       Inr (TransactionFailed ''txn-2'' ''charlie'' ''insufficient funds'')"
proof -
  have v: "stringsValidUTF8 (TransactionFailed ''txn-2'' ''charlie'' ''insufficient funds'')"
    by (simp add: validUTF8_def byteIn_def)
  have s: "SerializeEvent ''2024-01-01T00:00:00Z''
        (TransactionFailed ''txn-2'' ''charlie'' ''insufficient funds'') =
       Inr (JObject [(''type'', JString ''TransactionFailed''),
                     (''timestamp'', JString ''2024-01-01T00:00:00Z''),
                     (''data'', JObject [(''transaction_id'', JString ''txn-2''),
                                         (''from_account'', JString ''charlie''),
                                         (''reason'', JString ''insufficient funds'')])])"
    by (simp add: SerializeEvent_def jsonMarshalEnvelope_def jsonStringValue_def byteIn_def
        EventTypeTransactionFailed_def)
  show ?thesis
    using codec_round_trip [OF v, of "''2024-01-01T00:00:00Z''"] v s by simp
qed

end
